theory Spec2Isabelle
  imports Main "HOL-Library.AList" "HOL-Library.Multiset"
begin

section \<open>Data model of \<open>ls/joyous/formats/vtimezone.py\<close>\<close>

text \<open>
  Points in time are whole seconds counted from 1970-01-01T00:00:00. A naive datetime is
  the reading of its own wall clock in that unit; an instant is a reading of the UTC clock.
  Microseconds are left out.
\<close>

datatype py_error = IndexError | ValueError string | OverflowError | TypeError

text \<open>
  A datetime object as the builder meets it: naive, given by the reading of its wall
  clock, or aware, given by the instant it denotes. Python orders two naive datetimes by
  their readings and two aware ones by their instants, and raises TypeError
  (\<open>can't compare offset-naive and offset-aware datetimes\<close>) when asked to order a naive
  against an aware one. \<open>a > b\<close> is \<open>py_less b a\<close>.
\<close>

datatype pydatetime = Naive int | Aware int

fun py_less :: "pydatetime \<Rightarrow> pydatetime \<Rightarrow> py_error + bool" where
  "py_less (Naive a) (Naive b) = Inr (a < b)"
| "py_less (Aware a) (Aware b) = Inr (a < b)"
| "py_less (Naive a) (Aware b) = Inl TypeError"
| "py_less (Aware a) (Naive b) = Inl TypeError"

text \<open>\<open>x and y\<close> on two comparisons: \<open>y\<close> is evaluated only when \<open>x\<close> is true.\<close>

definition py_and :: "py_error + bool \<Rightarrow> py_error + bool \<Rightarrow> py_error + bool" where
  "py_and x y = (case x of Inl e \<Rightarrow> Inl e | Inr b \<Rightarrow> if b then y else Inr False)"

text \<open>\<open>datetime.min\<close>, \<open>datetime.max\<close> (to the second) and \<open>dt.datetime(1601, 1, 1)\<close>.\<close>

definition datetime_min :: int where
  "datetime_min = - 62135596800"

definition datetime_max :: int where
  "datetime_max = 253402300799"

definition datetime_1601_1_1 :: int where
  "datetime_1601_1_1 = - 11644473600"

text \<open>
  The argument of \<open>to_naive_utc\<close>: an object without a \<open>tzinfo\<close> attribute (a \<open>dt.date\<close>,
  given by its day number), or a datetime with its wall-clock reading and its \<open>tzinfo\<close>;
  an attached tzinfo is given by the UTC offset, in seconds, that it reports for the value.
\<close>

datatype dtime = NoTzinfoAttr int | Datetime int "int option"

text \<open>
  A value stored where the code expects a UTC offset: a \<open>timedelta\<close> (in seconds) or a
  plain number.
\<close>

datatype offset_value = Timedelta int | PlainNumber int

text \<open>
  One entry of \<open>tz._transition_info\<close> is the tuple (utcoffset, dst, tzname); the second
  component is kept as its truth value, the only way line 122 reads it.
\<close>

type_synonym transition_info_entry = "offset_value \<times> bool \<times> string"

text \<open>
  An attribute that an object may lack, hold as \<open>None\<close>, or hold as a string.
\<close>

datatype attribute = Absent | IsNone | Text string

text \<open>
  A timezone reference, an instance of \<open>dt.tzinfo\<close>. \<open>zone\<close> is the attribute of that
  name, \<open>str\<close> is \<open>str(tz)\<close>, \<open>utcoffset\<close> is \<open>tz.utcoffset(None)\<close>, \<open>utc_transition_times\<close>
  is the attribute \<open>_utc_transition_times\<close> (\<open>None\<close> when the object has no such attribute:
  a static zone), \<open>transition_info\<close> is \<open>_transition_info\<close>, and \<open>fromutc t\<close> is the naive
  local datetime \<open>tz.fromutc(t).replace(tzinfo=None)\<close>. A pytz zone holds its transition
  instants as naive datetimes.
\<close>

record tzref =
  zone :: attribute
  str :: string
  utcoffset :: offset_value
  utc_transition_times :: "pydatetime list option"
  transition_info :: "transition_info_entry list"
  fromutc :: "pydatetime \<Rightarrow> int"

datatype comp_kind = STANDARD | DAYLIGHT

text \<open>
  A sub-component of the VTIMEZONE tree with its properties in the order the code adds
  them; an absent RDATE property is the empty list.
\<close>

record subcomp =
  kind :: comp_kind
  TZNAME :: string
  DTSTART :: int
  TZOFFSETTO :: offset_value
  TZOFFSETFROM :: offset_value
  RDATE :: "int list"

record vtimezone =
  TZID :: string
  subcomponents :: "subcomp list"

section \<open>\<open>to_naive_utc\<close>\<close>

text \<open>
  \<open>dtime.astimezone(pytz.UTC)\<close> on an aware value subtracts the UTC offset; the datetime
  type raises OverflowError when the result leaves \<open>datetime.min .. datetime.max\<close>.
\<close>

definition astimezone_utc :: "int \<Rightarrow> int \<Rightarrow> py_error + int" where
  "astimezone_utc wall off =
     (let u = wall - off
      in if datetime_min \<le> u \<and> u \<le> datetime_max then Inr u else Inl OverflowError)"

fun to_naive_utc :: "dtime \<Rightarrow> py_error + dtime" where
  "to_naive_utc (NoTzinfoAttr d) = Inr (NoTzinfoAttr d)"
| "to_naive_utc (Datetime wall None) = Inr (Datetime wall None)"
| "to_naive_utc (Datetime wall (Some off)) =
     (case astimezone_utc wall off of
        Inl e \<Rightarrow> Inl e
      | Inr dtime_utc \<Rightarrow> Inr (Datetime dtime_utc None))"

text \<open>Calling a function on the result of a call that may have raised.\<close>

definition and_then :: "py_error + 'a \<Rightarrow> ('a \<Rightarrow> py_error + 'b) \<Rightarrow> py_error + 'b" where
  "and_then r f = (case r of Inl e \<Rightarrow> Inl e | Inr v \<Rightarrow> f v)"

section \<open>\<open>create_timezone\<close>\<close>

text \<open>
  Python indexing \<open>xs[i]\<close>: a negative index counts from the end, an index outside the
  list raises IndexError.
\<close>

definition py_index :: "'a list \<Rightarrow> int \<Rightarrow> py_error + 'a" where
  "py_index xs i =
     (if 0 \<le> i \<and> i < int (length xs) then Inr (xs ! nat i)
      else if i < 0 \<and> - int (length xs) \<le> i then Inr (xs ! nat (int (length xs) + i))
      else Inl IndexError)"

text \<open>
  Lines 102 to 108, one round of the loop over \<open>enumerate(tz._utc_transition_times)\<close>:
  the two conditions in their order, each comparison able to raise. Indices are natural
  numbers: \<open>len(...) - 1\<close> on line 99 is negative only for an empty history, and then line
  100 raises IndexError before the value is read.
\<close>

fun scan_step ::
  "pydatetime \<Rightarrow> pydatetime \<Rightarrow> nat \<times> pydatetime \<times> nat \<times> pydatetime \<Rightarrow> nat \<times> pydatetime \<Rightarrow>
     py_error + nat \<times> pydatetime \<times> nat \<times> pydatetime" where
  "scan_step first_date last_date (first_num, first_tt, last_num, last_tt) (num, transtime) =
     (case py_and (py_less first_tt transtime) (py_less transtime first_date) of
        Inl e \<Rightarrow> Inl e
      | Inr after_first \<Rightarrow>
          (let (first_num, first_tt) =
                 (if after_first then (num, transtime) else (first_num, first_tt))
           in case py_and (py_less transtime last_tt) (py_less last_date transtime) of
                Inl e \<Rightarrow> Inl e
              | Inr before_last \<Rightarrow>
                  (let (last_num, last_tt) =
                         (if before_last then (num, transtime) else (last_num, last_tt))
                   in Inr (first_num, first_tt, last_num, last_tt))))"

fun scan ::
  "pydatetime \<Rightarrow> pydatetime \<Rightarrow> (nat \<times> pydatetime) list \<Rightarrow> nat \<times> pydatetime \<times> nat \<times> pydatetime \<Rightarrow>
     py_error + nat \<times> pydatetime \<times> nat \<times> pydatetime" where
  "scan first_date last_date [] st = Inr st"
| "scan first_date last_date (p # ps) st =
     (case scan_step first_date last_date st p of
        Inl e \<Rightarrow> Inl e
      | Inr st' \<Rightarrow> scan first_date last_date ps st')"

text \<open>Lines 99 to 108 on a non-empty history: the pair (first_num, last_num).\<close>

definition select_window :: "pydatetime \<Rightarrow> pydatetime \<Rightarrow> pydatetime list \<Rightarrow> py_error + nat \<times> nat" where
  "select_window first_date last_date tts =
     (case scan first_date last_date (enumerate 0 tts)
             (0, hd tts, length tts - 1, last tts) of
        Inl e \<Rightarrow> Inl e
      | Inr (first_num, first_tt, last_num, last_tt) \<Rightarrow> Inr (first_num, last_num))"

text \<open>
  Lines 112 to 140, one round of the loop over \<open>range(first_num, last_num + 1)\<close>. The
  dictionary \<open>timezones\<close> is an association list in insertion order: assigning to a new key
  appends, changing the value of a key keeps its place.
\<close>

definition loop_body ::
  "tzref \<Rightarrow> pydatetime list \<Rightarrow> (string \<times> subcomp) list \<Rightarrow> nat \<Rightarrow>
     py_error + (string \<times> subcomp) list" where
  "loop_body tz tts timezones num =
     (case py_index (transition_info tz) (int num) of
        Inl e \<Rightarrow> Inl e
      | Inr (utcoffset_num, dst_num, name) \<Rightarrow>
          (case map_of timezones name of
             Some sc \<Rightarrow>
               (case py_index tts (int num) of
                  Inl e \<Rightarrow> Inl e
                | Inr transtime \<Rightarrow>
                    Inr (AList.update name (sc\<lparr>RDATE := RDATE sc @ [fromutc tz transtime]\<rparr>) timezones))
           | None \<Rightarrow>
               (case py_index tts (int num) of
                  Inl e \<Rightarrow> Inl e
                | Inr transtime \<Rightarrow>
                    (case py_index (transition_info tz) (int num - 1) of
                       Inl e \<Rightarrow> Inl e
                     | Inr (utcoffset_prev, dst_prev, name_prev) \<Rightarrow>
                         (case (utcoffset_num, utcoffset_prev) of
                            (Timedelta tzoffsetto, Timedelta tzoffsetfrom) \<Rightarrow>
                              Inr (AList.update name
                                     \<lparr>kind = (if dst_num then DAYLIGHT else STANDARD),
                                      TZNAME = name,
                                      DTSTART = fromutc tz transtime,
                                      TZOFFSETTO = Timedelta tzoffsetto,
                                      TZOFFSETFROM = Timedelta tzoffsetfrom,
                                      RDATE = []\<rparr> timezones)
                          | _ \<Rightarrow> Inl (ValueError ''TZOFFSET values must be timedelta instances''))))))"

fun render ::
  "tzref \<Rightarrow> pydatetime list \<Rightarrow> nat list \<Rightarrow> (string \<times> subcomp) list \<Rightarrow>
     py_error + (string \<times> subcomp) list" where
  "render tz tts [] timezones = Inr timezones"
| "render tz tts (num # nums) timezones =
     (case loop_body tz tts timezones num of
        Inl e \<Rightarrow> Inl e
      | Inr timezones' \<Rightarrow> render tz tts nums timezones')"

text \<open>
  Lines 74 and 75: an omitted bound is a reading of the clock, a given one is moved into
  the zone's frame, which keeps its instant. Either way the bound is an aware datetime:
  \<open>datetime.now(tz)\<close> is aware, and \<open>astimezone\<close> returns an aware value for a naive
  argument too, which it reads as local time. A given bound is named by its instant.
\<close>

definition window_bound :: "int \<Rightarrow> int option \<Rightarrow> int" where
  "window_bound now d = (case d of None \<Rightarrow> now | Some d' \<Rightarrow> d')"

text \<open>
  \<open>create_timezone\<close>. The first argument holds the two readings of the clock that lines 74
  and 75 make when a bound is omitted. The arguments are instances of \<open>dt.tzinfo\<close>, so the
  test on line 57 is the test for the attribute \<open>_utc_transition_times\<close>; a \<open>ZoneInfo\<close> has no
  such attribute and returns on line 67, so the conversion on lines 70 to 72 is never
  reached. \<open>timezone.add('TZID', tz)\<close> on line 77 stores \<open>str(tz)\<close>, and a \<open>zone\<close>
  attribute that is \<open>None\<close> is stored as the text \<open>None\<close>.
\<close>

definition create_timezone ::
  "int \<times> int \<Rightarrow> tzref \<Rightarrow> int option \<Rightarrow> int option \<Rightarrow> py_error + vtimezone" where
  "create_timezone clock tz first_date last_date =
     (let tzname = (case zone tz of Absent \<Rightarrow> str tz | IsNone \<Rightarrow> ''None'' | Text z \<Rightarrow> z)
      in case utc_transition_times tz of
           None \<Rightarrow>
             (let offset = utcoffset tz;
                  offset_seconds = 0;
                  offset = Timedelta offset_seconds
              in Inr \<lparr>TZID = tzname,
                      subcomponents =
                        [\<lparr>kind = STANDARD, TZNAME = tzname, DTSTART = datetime_1601_1_1,
                          TZOFFSETTO = offset, TZOFFSETFROM = offset, RDATE = []\<rparr>]\<rparr>)
         | Some tts \<Rightarrow>
             (let first_date = Aware (window_bound (fst clock) first_date);
                  last_date = Aware (window_bound (snd clock) last_date)
              in if tts = [] then Inl IndexError
                 else
                   (case select_window first_date last_date tts of
                      Inl e \<Rightarrow> Inl e
                    | Inr (first_num, last_num) \<Rightarrow>
                        (case render tz tts [first_num ..< last_num + 1] [] of
                           Inl e \<Rightarrow> Inl e
                         | Inr timezones \<Rightarrow>
                             Inr \<lparr>TZID = str tz, subcomponents = map snd timezones\<rparr>))))"

text \<open>
  \<open>_create_timezone_static\<close>, lines 148 to 170, which nothing in the module calls. The
  message of its error ends with the type of the value received.
\<close>

definition create_timezone_static :: "tzref \<Rightarrow> py_error + vtimezone" where
  "create_timezone_static tz =
     (case utcoffset tz of
        PlainNumber n \<Rightarrow> Inl (ValueError ''Expected timedelta, got <class 'int'>'')
      | Timedelta s \<Rightarrow>
          Inr \<lparr>TZID = str tz,
               subcomponents =
                 [\<lparr>kind = STANDARD, TZNAME = str tz, DTSTART = datetime_1601_1_1,
                   TZOFFSETTO = Timedelta s, TZOFFSETFROM = Timedelta s, RDATE = []\<rparr>]\<rparr>)"

section \<open>Notions used in the statements\<close>

subsection \<open>The window of transition indices as the specification words it\<close>



subsection \<open>Reading the transition history\<close>

text \<open>
  \<open>tz._transition_info[num][0]\<close>, \<open>[1]\<close> and \<open>[2]\<close>; \<open>tz._transition_info[num - 1][0]\<close>,
  where the index \<open>-1\<close> of \<open>num = 0\<close> is the last entry; the naive local start time of
  transition \<open>num\<close>; and the sub-component that lines 122 to 139 build for it.
\<close>

definition utcoffset_at :: "tzref \<Rightarrow> nat \<Rightarrow> offset_value" where
  "utcoffset_at tz num = fst (transition_info tz ! num)"

definition dst_at :: "tzref \<Rightarrow> nat \<Rightarrow> bool" where
  "dst_at tz num = fst (snd (transition_info tz ! num))"

definition tzname_at :: "tzref \<Rightarrow> nat \<Rightarrow> string" where
  "tzname_at tz num = snd (snd (transition_info tz ! num))"

definition utcoffset_before :: "tzref \<Rightarrow> nat \<Rightarrow> offset_value" where
  "utcoffset_before tz num =
     (if num = 0 then fst (last (transition_info tz)) else fst (transition_info tz ! (num - 1)))"

definition local_start :: "tzref \<Rightarrow> pydatetime list \<Rightarrow> nat \<Rightarrow> int" where
  "local_start tz tts num = fromutc tz (tts ! num)"

definition new_subcomp :: "tzref \<Rightarrow> pydatetime list \<Rightarrow> nat \<Rightarrow> subcomp" where
  "new_subcomp tz tts num =
     \<lparr>kind = (if dst_at tz num then DAYLIGHT else STANDARD),
      TZNAME = tzname_at tz num,
      DTSTART = local_start tz tts num,
      TZOFFSETTO = utcoffset_at tz num,
      TZOFFSETFROM = utcoffset_before tz num,
      RDATE = []\<rparr>"

fun is_timedelta :: "offset_value \<Rightarrow> bool" where
  "is_timedelta (Timedelta s) = True"
| "is_timedelta (PlainNumber n) = False"

text \<open>
  The sub-component that a list of indices gives to a name: built by the first index with
  that name, with one RDATE value for each later one.
\<close>

definition grouped :: "tzref \<Rightarrow> pydatetime list \<Rightarrow> nat list \<Rightarrow> string \<Rightarrow> subcomp option" where
  "grouped tz tts ns name =
     (case filter (\<lambda>i. tzname_at tz i = name) ns of
        [] \<Rightarrow> None
      | i # rest \<Rightarrow> Some ((new_subcomp tz tts i)\<lparr>RDATE := map (local_start tz tts) rest\<rparr>))"

text \<open>
  Transition \<open>num\<close> cannot be turned into a sub-component: its offset or the offset of
  the entry before it is not a \<open>timedelta\<close>. A list of indices raises when it reaches such
  a transition whose name has not been seen.
\<close>

definition bad_offsets :: "tzref \<Rightarrow> nat \<Rightarrow> bool" where
  "bad_offsets tz num =
     (\<not> (is_timedelta (utcoffset_at tz num) \<and> is_timedelta (utcoffset_before tz num)))"



subsection \<open>The scan on instants\<close>

text \<open>
  The scan of lines 99 to 108 when every comparison is one of instants and so cannot
  raise, and its state after the first \<open>k\<close> transitions. This is what \<open>select_window\<close>
  computes on a history held as aware datetimes (lemma \<open>select_window_aware\<close>).
\<close>

fun instant_scan_step :: "int \<Rightarrow> int \<Rightarrow> nat \<times> int \<times> nat \<times> int \<Rightarrow> nat \<times> int \<Rightarrow> nat \<times> int \<times> nat \<times> int" where
  "instant_scan_step first_date last_date (first_num, first_tt, last_num, last_tt) (num, transtime) =
     (let (first_num, first_tt) =
            (if transtime > first_tt \<and> transtime < first_date then (num, transtime)
             else (first_num, first_tt));
          (last_num, last_tt) =
            (if transtime < last_tt \<and> transtime > last_date then (num, transtime)
             else (last_num, last_tt))
      in (first_num, first_tt, last_num, last_tt))"

definition instant_window :: "int \<Rightarrow> int \<Rightarrow> int list \<Rightarrow> nat \<times> nat" where
  "instant_window first_date last_date tts =
     (case foldl (instant_scan_step first_date last_date)
             (0, hd tts, length tts - 1, last tts) (enumerate 0 tts) of
        (first_num, first_tt, last_num, last_tt) \<Rightarrow> (first_num, last_num))"

definition scan_prefix :: "int \<Rightarrow> int \<Rightarrow> int list \<Rightarrow> nat \<Rightarrow> nat \<times> int \<times> nat \<times> int" where
  "scan_prefix fd ld tts k =
     foldl (instant_scan_step fd ld) (0, hd tts, length tts - 1, last tts)
       (enumerate 0 (take k tts))"

definition bounds_inv :: "int \<Rightarrow> int \<Rightarrow> int list \<Rightarrow> nat \<times> int \<times> nat \<times> int \<Rightarrow> bool" where
  "bounds_inv fd ld tts st =
     (case st of (fn, ftt, ln, ltt) \<Rightarrow>
        fn < length tts \<and> ln < length tts \<and> ftt = tts ! fn \<and> ltt = tts ! ln \<and>
        (fn = 0 \<or> tts ! fn < fd) \<and> (ln = length tts - 1 \<or> ld < tts ! ln))"





subsection \<open>Example zones\<close>

text \<open>
  A zone with five transitions, local mean time first and then two alternating names,
  its instants held as pytz holds them; the same history held as aware datetimes; that
  one with a plain number stored as its last offset; a zone of one transition whose
  offset is a plain number; and two static zones one hour ahead of UTC, the second with
  a plain number as its offset.
\<close>

definition reading :: "pydatetime \<Rightarrow> int" where
  "reading t = (case t of Naive i \<Rightarrow> i | Aware i \<Rightarrow> i)"

definition paris :: tzref where
  "paris =
     \<lparr>zone = Text ''Europe/Paris'', str = ''Europe/Paris'', utcoffset = Timedelta 3600,
      utc_transition_times = Some [Naive 0, Naive 100, Naive 200, Naive 300, Naive 400],
      transition_info =
        [(Timedelta 561, False, ''LMT''), (Timedelta 7200, True, ''CEST''),
         (Timedelta 3600, False, ''CET''), (Timedelta 7200, True, ''CEST''),
         (Timedelta 3600, False, ''CET'')],
      fromutc =
        (\<lambda>t. if reading t < 100 then reading t + 561
             else if reading t < 200 \<or> (300 \<le> reading t \<and> reading t < 400)
               then reading t + 7200
             else reading t + 3600)\<rparr>"




definition fixed_plus_one :: tzref where
  "fixed_plus_one =
     \<lparr>zone = Absent, str = ''UTC+01:00'', utcoffset = Timedelta 3600,
      utc_transition_times = None, transition_info = [], fromutc = (\<lambda>t. reading t + 3600)\<rparr>"

definition fixed_plain :: tzref where
  "fixed_plain = fixed_plus_one\<lparr>utcoffset := PlainNumber 3600\<rparr>"



text \<open>The trees of the two functions for a static zone one hour ahead of UTC.\<close>

definition tree_fixed_zero :: vtimezone where
  "tree_fixed_zero =
     \<lparr>TZID = ''UTC+01:00'', subcomponents =
       [\<lparr>kind = STANDARD, TZNAME = ''UTC+01:00'', DTSTART = datetime_1601_1_1,
         TZOFFSETTO = Timedelta 0, TZOFFSETFROM = Timedelta 0, RDATE = []\<rparr>]\<rparr>"

definition tree_fixed_hour :: vtimezone where
  "tree_fixed_hour =
     \<lparr>TZID = ''UTC+01:00'', subcomponents =
       [\<lparr>kind = STANDARD, TZNAME = ''UTC+01:00'', DTSTART = datetime_1601_1_1,
         TZOFFSETTO = Timedelta 3600, TZOFFSETFROM = Timedelta 3600, RDATE = []\<rparr>]\<rparr>"

section \<open>Lemmas\<close>

lemma scan_prefix_0: "scan_prefix fd ld tts 0 = (0, hd tts, length tts - 1, last tts)"
  by (simp add: scan_prefix_def)

lemma scan_prefix_Suc:
  assumes "k < length tts"
  shows "scan_prefix fd ld tts (Suc k) = instant_scan_step fd ld (scan_prefix fd ld tts k) (k, tts ! k)"
proof -
  have "enumerate 0 (take (Suc k) tts) = enumerate 0 (take k tts) @ [(k, tts ! k)]"
    using assms by (simp add: take_Suc_conv_app_nth enumerate_append_eq)
  then show ?thesis by (simp add: scan_prefix_def)
qed

lemma instant_window_prefix:
  "instant_window fd ld tts = (case scan_prefix fd ld tts (length tts) of (fn, ftt, ln, ltt) \<Rightarrow> (fn, ln))"
  by (simp add: instant_window_def scan_prefix_def)

lemma bounds_inv_prefix:
  assumes "tts \<noteq> []" "k \<le> length tts"
  shows "bounds_inv fd ld tts (scan_prefix fd ld tts k)"
  using assms(2)
proof (induction k)
  case 0
  with assms(1) show ?case
    by (simp add: scan_prefix_0 bounds_inv_def hd_conv_nth last_conv_nth)
next
  case (Suc k)
  then have k: "k < length tts" and ih: "bounds_inv fd ld tts (scan_prefix fd ld tts k)" by simp_all
  obtain fn ftt ln ltt where st: "scan_prefix fd ld tts k = (fn, ftt, ln, ltt)"
    by (cases "scan_prefix fd ld tts k") auto
  show ?case
    using ih k unfolding scan_prefix_Suc[OF k] st
    by (auto simp: bounds_inv_def)
qed










lemma instant_window_bounds:
  assumes "tts \<noteq> []" "instant_window fd ld tts = (first_num, last_num)"
  shows "first_num < length tts \<and> last_num < length tts"
  using bounds_inv_prefix[OF assms(1), of "length tts" fd ld] assms(2)
  by (auto simp: instant_window_prefix bounds_inv_def split: prod.splits)

lemma instant_window_nonempty:
  assumes ne: "tts \<noteq> []" and srt: "sorted tts" and le: "fd \<le> ld"
    and sw: "instant_window fd ld tts = (first_num, last_num)"
  shows "first_num \<le> last_num"
proof -
  obtain ftt ltt where st: "scan_prefix fd ld tts (length tts) = (first_num, ftt, last_num, ltt)"
    using sw by (auto simp: instant_window_prefix split: prod.splits)
  have b: "bounds_inv fd ld tts (first_num, ftt, last_num, ltt)"
    using bounds_inv_prefix[OF ne, of "length tts" fd ld] st by simp
  show ?thesis
  proof (rule ccontr)
    assume "\<not> first_num \<le> last_num"
    then have lt: "last_num < first_num" by simp
    with b have "tts ! first_num < fd" "ld < tts ! last_num" "first_num < length tts"
      by (auto simp: bounds_inv_def)
    moreover have "tts ! last_num \<le> tts ! first_num"
      using srt lt \<open>first_num < length tts\<close> by (simp add: sorted_iff_nth_mono)
    ultimately show False using le by simp
  qed
qed

text \<open>The scan of the program on a history held as aware datetimes.\<close>

lemma scan_step_aware:
  "scan_step (Aware fd) (Aware ld) (fn, Aware ftt, ln, Aware ltt) (num, Aware t) =
     Inr (case instant_scan_step fd ld (fn, ftt, ln, ltt) (num, t) of
            (a, b, c, d) \<Rightarrow> (a, Aware b, c, Aware d))"
  by (simp add: py_and_def)

lemma scan_aware:
  "scan (Aware fd) (Aware ld) (enumerate n (map Aware xs)) (fn, Aware ftt, ln, Aware ltt) =
     Inr (case foldl (instant_scan_step fd ld) (fn, ftt, ln, ltt) (enumerate n xs) of
            (a, b, c, d) \<Rightarrow> (a, Aware b, c, Aware d))"
proof (induction xs arbitrary: n fn ftt ln ltt)
  case Nil
  then show ?case by simp
next
  case (Cons x xs)
  obtain a b c d where s: "instant_scan_step fd ld (fn, ftt, ln, ltt) (n, x) = (a, b, c, d)"
    by (cases "instant_scan_step fd ld (fn, ftt, ln, ltt) (n, x)") auto
  have "scan_step (Aware fd) (Aware ld) (fn, Aware ftt, ln, Aware ltt) (n, Aware x) =
          Inr (a, Aware b, c, Aware d)"
    unfolding scan_step_aware s by simp
  then show ?case using Cons.IH[of "Suc n" a b c d] s by simp
qed

lemma select_window_aware:
  assumes "xs \<noteq> []"
  shows "select_window (Aware fd) (Aware ld) (map Aware xs) = Inr (instant_window fd ld xs)"
proof -
  have h: "hd (map Aware xs) = Aware (hd xs)" "last (map Aware xs) = Aware (last xs)"
    using assms by (simp_all add: hd_map last_map)
  obtain a b c d where f:
    "foldl (instant_scan_step fd ld) (0, hd xs, length xs - 1, last xs) (enumerate 0 xs) = (a, b, c, d)"
    by (cases "foldl (instant_scan_step fd ld) (0, hd xs, length xs - 1, last xs) (enumerate 0 xs)") auto
  show ?thesis
    unfolding select_window_def instant_window_def h
    using scan_aware[of fd ld 0 xs 0 "hd xs" "length xs - 1" "last xs"] f by simp
qed




lemma py_index_nat: "i < length xs \<Longrightarrow> py_index xs (int i) = Inr (xs ! i)"
  by (simp add: py_index_def)

lemma py_index_pred:
  "i < length xs \<Longrightarrow>
   py_index xs (int i - 1) = Inr (if i = 0 then last xs else xs ! (i - 1))"
proof (cases i)
  case 0
  assume "i < length xs"
  then have "xs \<noteq> []" "0 < length xs" by auto
  with 0 show ?thesis
    by (simp add: py_index_def last_conv_nth nat_diff_distrib Suc_le_eq)
next
  case (Suc j)
  assume "i < length xs"
  with Suc show ?thesis by (simp add: py_index_def)
qed

lemma py_index_Inr_bound: "py_index xs (int i) = Inr x \<Longrightarrow> i < length xs"
  by (auto simp: py_index_def split: if_splits)

lemma loop_body_eq:
  assumes "num < length (transition_info tz)" "num < length tts"
  shows "loop_body tz tts timezones num =
     (case map_of timezones (tzname_at tz num) of
        Some sc \<Rightarrow> Inr (AList.update (tzname_at tz num)
                         (sc\<lparr>RDATE := RDATE sc @ [local_start tz tts num]\<rparr>) timezones)
      | None \<Rightarrow>
          if is_timedelta (utcoffset_at tz num) \<and> is_timedelta (utcoffset_before tz num)
          then Inr (AList.update (tzname_at tz num) (new_subcomp tz tts num) timezones)
          else Inl (ValueError ''TZOFFSET values must be timedelta instances''))"
proof -
  obtain o1 d1 n1 where e1: "transition_info tz ! num = (o1, d1, n1)"
    by (cases "transition_info tz ! num") auto
  obtain o2 d2 n2 where e2:
    "(if num = 0 then last (transition_info tz) else transition_info tz ! (num - 1)) = (o2, d2, n2)"
    by (cases "if num = 0 then last (transition_info tz) else transition_info tz ! (num - 1)") auto
  have p: "py_index (transition_info tz) (int num - 1) = Inr (o2, d2, n2)"
    using py_index_pred[OF assms(1)] e2 by simp
  have ob: "utcoffset_before tz num = o2"
    using e2 by (auto simp: utcoffset_before_def split: if_splits)
  show ?thesis
    unfolding loop_body_def py_index_nat[OF assms(1)] py_index_nat[OF assms(2)] p e1
    using ob e1
    by (cases o1; cases o2)
       (simp_all add: tzname_at_def utcoffset_at_def dst_at_def local_start_def new_subcomp_def
          split: option.splits)
qed

lemma loop_body_Inr_bound:
  assumes "loop_body tz tts timezones num = Inr d"
  shows "num < length (transition_info tz) \<and> num < length tts"
proof -
  from assms obtain x where x: "py_index (transition_info tz) (int num) = Inr x"
    by (auto simp: loop_body_def split: sum.splits)
  from assms x obtain t where "py_index tts (int num) = Inr t"
    by (auto simp: loop_body_def split: sum.splits option.splits prod.splits)
  with x show ?thesis by (auto dest: py_index_Inr_bound)
qed

lemma render_Inr_bound:
  "render tz tts ns d0 = Inr d \<Longrightarrow> i \<in> set ns \<Longrightarrow>
   i < length (transition_info tz) \<and> i < length tts"
proof (induction ns arbitrary: d0)
  case Nil
  then show ?case by simp
next
  case (Cons n ns)
  from Cons.prems(1) obtain d1 where d1: "loop_body tz tts d0 n = Inr d1"
    and r: "render tz tts ns d1 = Inr d"
    by (auto split: sum.splits)
  show ?case
  proof (cases "i = n")
    case True
    with d1 show ?thesis using loop_body_Inr_bound by blast
  next
    case False
    with Cons.prems(2) have "i \<in> set ns" by simp
    with Cons.IH[OF r] show ?thesis by blast
  qed
qed

lemma grouped_skip:
  "tzname_at tz n \<noteq> name \<Longrightarrow> grouped tz tts (n # ns) name = grouped tz tts ns name"
  by (simp add: grouped_def)

lemma render_map_of:
  assumes "render tz tts ns d0 = Inr d"
  shows "map_of d name =
     (case map_of d0 name of
        Some sc \<Rightarrow>
          Some (sc\<lparr>RDATE := RDATE sc @
                   map (local_start tz tts) (filter (\<lambda>i. tzname_at tz i = name) ns)\<rparr>)
      | None \<Rightarrow> grouped tz tts ns name)"
  using assms
proof (induction ns arbitrary: d0)
  case Nil
  then show ?case by (simp add: grouped_def split: option.splits)
next
  case (Cons n ns)
  from Cons.prems obtain d1 where d1: "loop_body tz tts d0 n = Inr d1"
    and r: "render tz tts ns d1 = Inr d"
    by (auto split: sum.splits)
  from d1 have b: "n < length (transition_info tz)" "n < length tts"
    using loop_body_Inr_bound by blast+
  note ih = Cons.IH[OF r]
  show ?case
  proof (cases "map_of d0 (tzname_at tz n)")
    case None
    with d1 have u: "d1 = AList.update (tzname_at tz n) (new_subcomp tz tts n) d0"
      by (simp add: loop_body_eq[OF b] split: if_splits)
    show ?thesis
    proof (cases "tzname_at tz n = name")
      case True
      with u have "map_of d1 name = Some (new_subcomp tz tts n)"
        by (simp add: update_conv')
      with ih None True show ?thesis
        by (simp add: grouped_def new_subcomp_def)
    next
      case False
      with u have "map_of d1 name = map_of d0 name"
        by (simp add: update_conv')
      with ih False show ?thesis
        by (simp add: grouped_skip cong: option.case_cong)
    qed
  next
    case (Some sc)
    with d1 have u: "d1 = AList.update (tzname_at tz n)
                        (sc\<lparr>RDATE := RDATE sc @ [local_start tz tts n]\<rparr>) d0"
      by (simp add: loop_body_eq[OF b])
    show ?thesis
    proof (cases "tzname_at tz n = name")
      case True
      with u have "map_of d1 name = Some (sc\<lparr>RDATE := RDATE sc @ [local_start tz tts n]\<rparr>)"
        by (simp add: update_conv')
      with ih Some True show ?thesis by simp
    next
      case False
      with u have "map_of d1 name = map_of d0 name"
        by (simp add: update_conv')
      with ih False show ?thesis
        by (simp add: grouped_skip cong: option.case_cong)
    qed
  qed
qed

lemma loop_body_keys:
  assumes "loop_body tz tts d0 n = Inr d1"
  shows "fst ` set d1 = insert (tzname_at tz n) (fst ` set d0)"
    and "distinct (map fst d0) \<Longrightarrow> distinct (map fst d1)"
proof -
  from assms have b: "n < length (transition_info tz)" "n < length tts"
    using loop_body_Inr_bound by blast+
  from assms obtain v where u: "d1 = AList.update (tzname_at tz n) v d0"
    by (auto simp: loop_body_eq[OF b] split: option.splits if_splits)
  show "fst ` set d1 = insert (tzname_at tz n) (fst ` set d0)"
    using u by (simp add: dom_update)
  show "distinct (map fst d0) \<Longrightarrow> distinct (map fst d1)"
    using u by (simp add: distinct_update)
qed

lemma render_keys:
  assumes "render tz tts ns d0 = Inr d"
  shows "fst ` set d = fst ` set d0 \<union> tzname_at tz ` set ns"
    and "distinct (map fst d0) \<Longrightarrow> distinct (map fst d)"
  using assms
proof (induction ns arbitrary: d0)
  case Nil
  { case 1 then show ?case by simp }
  { case 2 then show ?case by simp }
next
  case (Cons n ns)
  { case 1
    then obtain d1 where d1: "loop_body tz tts d0 n = Inr d1"
      and r: "render tz tts ns d1 = Inr d"
      by (auto split: sum.splits)
    show ?case using Cons.IH(1)[OF r] loop_body_keys(1)[OF d1] by auto }
  { case 2
    then obtain d1 where d1: "loop_body tz tts d0 n = Inr d1"
      and r: "render tz tts ns d1 = Inr d"
      by (auto split: sum.splits)
    show ?case using Cons.IH(2)[OF _ r] loop_body_keys(2)[OF d1] 2(1) by blast }
qed





lemma create_timezone_Inr:
  assumes tts: "utc_transition_times tz = Some tts"
    and ok: "create_timezone clock tz first_date last_date = Inr tree"
    and sw: "select_window (Aware (window_bound (fst clock) first_date))
               (Aware (window_bound (snd clock) last_date)) tts = Inr (first_num, last_num)"
  shows "tts \<noteq> [] \<and>
         (\<exists>d. render tz tts [first_num ..< last_num + 1] [] = Inr d \<and>
              subcomponents tree = map snd d)"
  using ok unfolding create_timezone_def tts
  by (auto simp: Let_def sw split: if_splits sum.splits)


lemma create_timezone_scan_error:
  assumes tts: "utc_transition_times tz = Some tts" and ne: "tts \<noteq> []"
    and sw: "select_window (Aware (window_bound (fst clock) first_date))
               (Aware (window_bound (snd clock) last_date)) tts = Inl e"
  shows "create_timezone clock tz first_date last_date = Inl e"
  unfolding create_timezone_def tts using ne
  by (simp add: Let_def sw)

lemma grouped_Some:
  assumes "grouped tz tts ns name = Some sc"
  shows "\<exists>num rest. filter (\<lambda>i. tzname_at tz i = name) ns = num # rest \<and>
           sc = (new_subcomp tz tts num)\<lparr>RDATE := map (local_start tz tts) rest\<rparr> \<and>
           num \<in> set ns \<and> tzname_at tz num = name"
proof -
  from assms obtain num rest where f: "filter (\<lambda>i. tzname_at tz i = name) ns = num # rest"
    and sc: "sc = (new_subcomp tz tts num)\<lparr>RDATE := map (local_start tz tts) rest\<rparr>"
    by (auto simp: grouped_def split: list.splits)
  have "num \<in> set (filter (\<lambda>i. tzname_at tz i = name) ns)" unfolding f by simp
  then have "num \<in> set ns \<and> tzname_at tz num = name" by simp
  with f sc show ?thesis by blast
qed

lemma render_entries:
  assumes r: "render tz tts ns [] = Inr d"
  shows "distinct (map fst d)"
    and "fst ` set d = tzname_at tz ` set ns"
    and "(name, sc) \<in> set d \<Longrightarrow> grouped tz tts ns name = Some sc"
proof -
  show dist: "distinct (map fst d)" using render_keys(2)[OF r] by simp
  show "fst ` set d = tzname_at tz ` set ns" using render_keys(1)[OF r] by simp
  assume "(name, sc) \<in> set d"
  with dist have "map_of d name = Some sc" by simp
  then show "grouped tz tts ns name = Some sc"
    using render_map_of[OF r, of name] by simp
qed

lemma render_names:
  assumes r: "render tz tts ns [] = Inr d"
  shows "map TZNAME (map snd d) = map fst d"
proof -
  have "TZNAME (snd p) = fst p" if "p \<in> set d" for p
  proof -
    obtain name sc where p: "p = (name, sc)" by (cases p)
    with that render_entries(3)[OF r] have "grouped tz tts ns name = Some sc" by blast
    from grouped_Some[OF this] have "TZNAME sc = name" by (auto simp: new_subcomp_def)
    with p show ?thesis by simp
  qed
  then show ?thesis by simp
qed

lemma render_subcomp:
  assumes r: "render tz tts ns [] = Inr d" and sc: "sc \<in> set (map snd d)"
  shows "\<exists>num rest. filter (\<lambda>i. tzname_at tz i = TZNAME sc) ns = num # rest \<and>
           sc = (new_subcomp tz tts num)\<lparr>RDATE := map (local_start tz tts) rest\<rparr> \<and>
           num \<in> set ns \<and> tzname_at tz num = TZNAME sc"
proof -
  from sc obtain name where m: "(name, sc) \<in> set d" by auto
  from render_entries(3)[OF r m] have g: "grouped tz tts ns name = Some sc" .
  from grouped_Some[OF g] have "TZNAME sc = name" by (auto simp: new_subcomp_def)
  with grouped_Some[OF g] show ?thesis by simp
qed

lemma render_has_subcomp:
  assumes r: "render tz tts ns [] = Inr d" and n: "num \<in> set ns"
  shows "\<exists>sc\<in>set (map snd d). TZNAME sc = tzname_at tz num"
proof -
  from n have "tzname_at tz num \<in> fst ` set d"
    using render_entries(2)[OF r] by blast
  then obtain sc where m: "(tzname_at tz num, sc) \<in> set d" by auto
  from render_entries(3)[OF r m] have g: "grouped tz tts ns (tzname_at tz num) = Some sc" .
  from grouped_Some[OF g] have "TZNAME sc = tzname_at tz num" by (auto simp: new_subcomp_def)
  moreover from m have "sc \<in> set (map snd d)" by force
  ultimately show ?thesis by blast
qed

lemma filter_upt_first:
  assumes "lo \<le> num" "num < n" "P num" "\<forall>j. lo \<le> j \<and> j < num \<longrightarrow> \<not> P j"
  shows "filter P [lo ..< n] = num # filter P [Suc num ..< n]"
proof -
  have "[lo ..< n] = [lo ..< num] @ num # [Suc num ..< n]"
    using assms(1,2) upt_add_eq_append[of lo num "n - num"] by (simp add: upt_conv_Cons)
  moreover have "filter P [lo ..< num] = []"
    using assms(4) by (simp add: filter_empty_conv)
  ultimately show ?thesis using assms(3) by simp
qed







lemma all_timedelta_not_bad:
  assumes "\<forall>i<length (transition_info tz). is_timedelta (utcoffset_at tz i)"
    and "num < length (transition_info tz)"
  shows "\<not> bad_offsets tz num"
proof -
  have "is_timedelta (utcoffset_before tz num)"
  proof (cases "num = 0")
    case True
    with assms(2) have "last (transition_info tz) = transition_info tz ! (length (transition_info tz) - 1)"
      by (simp add: last_conv_nth)
    with True assms show ?thesis
      by (simp add: utcoffset_before_def utcoffset_at_def)
  next
    case False
    with assms show ?thesis
      by (simp add: utcoffset_before_def utcoffset_at_def)
  qed
  with assms show ?thesis by (simp add: bad_offsets_def)
qed

lemma paris_tts:
  "utc_transition_times paris = Some [Naive 0, Naive 100, Naive 200, Naive 300, Naive 400]"
  by (simp add: paris_def)


lemma select_window_naive:
  "select_window (Aware 150) (Aware 250) [Naive 0, Naive 100, Naive 200, Naive 300, Naive 400] =
     Inl TypeError"
  "select_window (Aware 50) (Aware 50) [Naive 0, Naive 100, Naive 200, Naive 300, Naive 400] =
     Inl TypeError"
  "select_window (Aware 100) (Aware 100) [Naive 0, Naive 100, Naive 200, Naive 300, Naive 400] =
     Inl TypeError"
  by (simp_all add: select_window_def py_and_def)

lemma create_timezone_paris:
  "create_timezone (0, 0) paris (Some 150) (Some 250) = Inl TypeError"
  "create_timezone (0, 0) paris (Some 50) (Some 50) = Inl TypeError"
  "create_timezone (0, 0) paris (Some 100) (Some 100) = Inl TypeError"
  by (simp_all add: create_timezone_def paris_def window_bound_def select_window_def py_and_def)





text \<open>
  The static path for any zone without transition times, whatever the window and the
  value of \<open>tz.utcoffset(None)\<close>: one STANDARD sub-component whose two offsets are
  \<open>timedelta(seconds=0)\<close>.
\<close>

lemma create_timezone_static_path:
  assumes "utc_transition_times tz = None"
  shows "create_timezone clock tz first_date last_date =
     Inr \<lparr>TZID = (case zone tz of Absent \<Rightarrow> str tz | IsNone \<Rightarrow> ''None'' | Text z \<Rightarrow> z),
          subcomponents =
            [\<lparr>kind = STANDARD,
              TZNAME = (case zone tz of Absent \<Rightarrow> str tz | IsNone \<Rightarrow> ''None'' | Text z \<Rightarrow> z),
              DTSTART = datetime_1601_1_1, TZOFFSETTO = Timedelta 0,
              TZOFFSETFROM = Timedelta 0, RDATE = []\<rparr>]\<rparr>"
  using assms by (simp add: create_timezone_def Let_def)

text \<open>
  A static zone whose offset is a plain number: \<open>create_timezone\<close> returns a tree with the
  offset zero, \<open>_create_timezone_static\<close> raises.
\<close>

lemma static_plain_offset:
  "create_timezone (0, 0) fixed_plain None None = Inr tree_fixed_zero"
  "create_timezone_static fixed_plain = Inl (ValueError ''Expected timedelta, got <class 'int'>'')"
  by (simp_all add: create_timezone_def create_timezone_static_def fixed_plain_def
        fixed_plus_one_def tree_fixed_zero_def Let_def)

text \<open>
  A history of two or more instants in chronological order, held as naive datetimes: the
  scan raises TypeError in its first round, on line 106, where \<open>transtime < last_tt\<close> holds
  and \<open>transtime > last_date\<close> orders a naive datetime against an aware bound.
\<close>

lemma select_window_naive_raises:
  assumes "a < b"
  shows "select_window (Aware fd) (Aware ld) (Naive a # xs @ [Naive b]) = Inl TypeError"
  using assms by (simp add: select_window_def py_and_def)

lemma create_timezone_naive_raises:
  assumes "utc_transition_times tz = Some (Naive a # xs @ [Naive b])" and "a < b"
  shows "create_timezone clock tz first_date last_date = Inl TypeError"
  using create_timezone_scan_error[OF assms(1) _ select_window_naive_raises[OF assms(2)]]
  by simp

text \<open>
  What a returned tree looks like, whenever the scan completes and a tree is returned:
  one sub-component for each name of the selected range, built by the first transition
  with that name, later ones adding RDATE values.
\<close>

lemma returned_tree_subcomponents_per_name:
  assumes "utc_transition_times tz = Some tts"
    and "create_timezone clock tz first_date last_date = Inr tree"
    and "select_window (Aware (window_bound (fst clock) first_date))
           (Aware (window_bound (snd clock) last_date)) tts = Inr (first_num, last_num)"
  shows "length (subcomponents tree) = card (tzname_at tz ` {first_num .. last_num}) \<and>
         distinct (map TZNAME (subcomponents tree)) \<and>
         (\<forall>sc\<in>set (subcomponents tree).
            \<exists>num later.
              filter (\<lambda>i. tzname_at tz i = TZNAME sc) [first_num ..< last_num + 1] = num # later \<and>
              DTSTART sc = local_start tz tts num \<and>
              RDATE sc = map (local_start tz tts) later)"
proof -
  from create_timezone_Inr[OF assms] obtain d
    where r: "render tz tts [first_num ..< last_num + 1] [] = Inr d"
      and sub: "subcomponents tree = map snd d"
    by blast
  have dist: "distinct (map fst d)" using render_entries(1)[OF r] .
  have keys: "fst ` set d = tzname_at tz ` {first_num .. last_num}"
  proof -
    have "set [first_num ..< last_num + 1] = {first_num .. last_num}" by auto
    with render_entries(2)[OF r] show ?thesis by simp
  qed
  have "length (subcomponents tree) = length (map fst d)" using sub by simp
  also have "\<dots> = card (set (map fst d))" using distinct_card[OF dist] by simp
  also have "\<dots> = card (tzname_at tz ` {first_num .. last_num})" using keys by simp
  finally have c: "length (subcomponents tree) = card (tzname_at tz ` {first_num .. last_num})" .
  have n: "distinct (map TZNAME (subcomponents tree))"
    unfolding sub render_names[OF r] using dist .
  have "\<exists>num later.
          filter (\<lambda>i. tzname_at tz i = TZNAME sc) [first_num ..< last_num + 1] = num # later \<and>
          DTSTART sc = local_start tz tts num \<and> RDATE sc = map (local_start tz tts) later"
    if "sc \<in> set (subcomponents tree)" for sc
  proof -
    from that sub have "sc \<in> set (map snd d)" by simp
    from render_subcomp[OF r this] obtain num rest where
      f: "filter (\<lambda>i. tzname_at tz i = TZNAME sc) [first_num ..< last_num + 1] = num # rest"
      and sc: "sc = (new_subcomp tz tts num)\<lparr>RDATE := map (local_start tz tts) rest\<rparr>"
      by blast
    from sc have "DTSTART sc = local_start tz tts num" "RDATE sc = map (local_start tz tts) rest"
      by (simp_all add: new_subcomp_def)
    with f show ?thesis by blast
  qed
  with c n show ?thesis by blast
qed

lemma returned_tree_three_transitions_A_B_A:
  assumes "utc_transition_times tz = Some tts"
    and "create_timezone clock tz first_date last_date = Inr tree"
    and "select_window (Aware (window_bound (fst clock) first_date))
           (Aware (window_bound (snd clock) last_date)) tts = Inr (first_num, first_num + 2)"
    and "tzname_at tz first_num = A"
    and "tzname_at tz (first_num + 1) = B"
    and "tzname_at tz (first_num + 2) = A"
    and "A \<noteq> B"
  shows "map TZNAME (subcomponents tree) = [A, B] \<and>
         map RDATE (subcomponents tree) = [[local_start tz tts (first_num + 2)], []]"
proof -
  from create_timezone_Inr[OF assms(1-3)] obtain d
    where r: "render tz tts [first_num ..< first_num + 2 + 1] [] = Inr d"
      and sub: "subcomponents tree = map snd d"
    by blast
  define n1 where "n1 = first_num + 1"
  define n2 where "n2 = first_num + 2"
  have nB: "tzname_at tz n1 = B" and nA: "tzname_at tz n2 = A"
    using assms(5,6) by (simp_all add: n1_def n2_def)
  have l: "[first_num ..< first_num + 2 + 1] = [first_num, n1, n2]"
    by (simp add: upt_conv_Cons n1_def n2_def)
  from r have r': "render tz tts [first_num, n1, n2] [] = Inr d"
    unfolding l .
  have b0: "first_num < length (transition_info tz)" "first_num < length tts"
    using render_Inr_bound[OF r', of first_num] by simp_all
  have b1: "n1 < length (transition_info tz)" "n1 < length tts"
    using render_Inr_bound[OF r', of n1] by simp_all
  have b2: "n2 < length (transition_info tz)" "n2 < length tts"
    using render_Inr_bound[OF r', of n2] by simp_all
  from r' obtain d1 d2 where
    s1: "loop_body tz tts [] first_num = Inr d1" and
    s2: "loop_body tz tts d1 n1 = Inr d2" and
    s3: "loop_body tz tts d2 n2 = Inr d"
    by (auto split: sum.splits)
  from s1 have d1: "d1 = [(A, new_subcomp tz tts first_num)]"
    by (simp add: loop_body_eq[OF b0] assms(4) split: if_splits)
  from s2 have d2: "d2 = [(A, new_subcomp tz tts first_num), (B, new_subcomp tz tts n1)]"
    unfolding d1 using assms(7) by (simp add: loop_body_eq[OF b1] nB split: if_splits)
  from s3 have d3: "d = [(A, (new_subcomp tz tts first_num)\<lparr>RDATE :=
            RDATE (new_subcomp tz tts first_num) @ [local_start tz tts n2]\<rparr>),
          (B, new_subcomp tz tts n1)]"
    unfolding d2 by (simp add: loop_body_eq[OF b2] nA)
  show ?thesis unfolding sub d3
    by (simp add: new_subcomp_def assms(4) nB n2_def)
qed

lemma returned_tree_first_occurrence_offsets:
  assumes "utc_transition_times tz = Some tts"
    and "create_timezone clock tz first_date last_date = Inr tree"
    and "select_window (Aware (window_bound (fst clock) first_date))
           (Aware (window_bound (snd clock) last_date)) tts = Inr (first_num, last_num)"
    and "first_num \<le> num" and "num \<le> last_num"
    and "\<forall>j. first_num \<le> j \<and> j < num \<longrightarrow> tzname_at tz j \<noteq> tzname_at tz num"
    and "0 < num"
  shows "(\<exists>sc\<in>set (subcomponents tree). TZNAME sc = tzname_at tz num) \<and>
         (\<forall>sc\<in>set (subcomponents tree). TZNAME sc = tzname_at tz num \<longrightarrow>
            TZOFFSETTO sc = utcoffset_at tz num \<and>
            TZOFFSETFROM sc = utcoffset_at tz (num - 1))"
proof -
  from create_timezone_Inr[OF assms(1-3)] obtain d
    where r: "render tz tts [first_num ..< last_num + 1] [] = Inr d"
      and sub: "subcomponents tree = map snd d"
    by blast
  have mem: "num \<in> set [first_num ..< last_num + 1]" using assms(4,5) by auto
  have ex: "\<exists>sc\<in>set (subcomponents tree). TZNAME sc = tzname_at tz num"
    using render_has_subcomp[OF r mem] sub by simp
  have "TZOFFSETTO sc = utcoffset_at tz num \<and> TZOFFSETFROM sc = utcoffset_at tz (num - 1)"
    if "sc \<in> set (subcomponents tree)" and nm: "TZNAME sc = tzname_at tz num" for sc
  proof -
    from that sub have "sc \<in> set (map snd d)" by simp
    from render_subcomp[OF r this] obtain n' rest where
      f: "filter (\<lambda>i. tzname_at tz i = TZNAME sc) [first_num ..< last_num + 1] = n' # rest"
      and sc: "sc = (new_subcomp tz tts n')\<lparr>RDATE := map (local_start tz tts) rest\<rparr>"
      by blast
    have "filter (\<lambda>i. tzname_at tz i = TZNAME sc) [first_num ..< last_num + 1] =
          num # filter (\<lambda>i. tzname_at tz i = TZNAME sc) [Suc num ..< last_num + 1]"
      using assms(4-6) nm by (intro filter_upt_first) auto
    with f have "n' = num" by simp
    with sc assms(7) show ?thesis
      by (simp add: new_subcomp_def utcoffset_before_def utcoffset_at_def)
  qed
  with ex show ?thesis by blast
qed

lemma returned_tree_offset_from_wraps:
  assumes "utc_transition_times tz = Some tts"
    and "create_timezone clock tz first_date last_date = Inr tree"
    and "select_window (Aware (window_bound (fst clock) first_date))
           (Aware (window_bound (snd clock) last_date)) tts = Inr (0, last_num)"
  shows "py_index (transition_info tz) (int 0 - 1) = Inr (last (transition_info tz)) \<and>
         (\<exists>sc\<in>set (subcomponents tree). TZNAME sc = tzname_at tz 0) \<and>
         (\<forall>sc\<in>set (subcomponents tree). TZNAME sc = tzname_at tz 0 \<longrightarrow>
            DTSTART sc = local_start tz tts 0 \<and>
            TZOFFSETFROM sc = fst (last (transition_info tz)))"
proof -
  from create_timezone_Inr[OF assms(1-3)] obtain d
    where r: "render tz tts [0 ..< last_num + 1] [] = Inr d"
      and sub: "subcomponents tree = map snd d"
    by blast
  have mem: "0 \<in> set [0 ..< last_num + 1]" by auto
  from render_Inr_bound[OF r mem] have b: "0 < length (transition_info tz)" by simp
  have p: "py_index (transition_info tz) (int 0 - 1) = Inr (last (transition_info tz))"
    using py_index_pred[OF b] by simp
  have ex: "\<exists>sc\<in>set (subcomponents tree). TZNAME sc = tzname_at tz 0"
    using render_has_subcomp[OF r mem] sub by simp
  have "DTSTART sc = local_start tz tts 0 \<and> TZOFFSETFROM sc = fst (last (transition_info tz))"
    if "sc \<in> set (subcomponents tree)" and nm: "TZNAME sc = tzname_at tz 0" for sc
  proof -
    from that sub have "sc \<in> set (map snd d)" by simp
    from render_subcomp[OF r this] obtain n' rest where
      f: "filter (\<lambda>i. tzname_at tz i = TZNAME sc) [0 ..< last_num + 1] = n' # rest"
      and sc: "sc = (new_subcomp tz tts n')\<lparr>RDATE := map (local_start tz tts) rest\<rparr>"
      by blast
    have "filter (\<lambda>i. tzname_at tz i = TZNAME sc) [0 ..< last_num + 1] =
          0 # filter (\<lambda>i. tzname_at tz i = TZNAME sc) [Suc 0 ..< last_num + 1]"
      using nm by (intro filter_upt_first) auto
    with f have "n' = 0" by simp
    with sc show ?thesis
      by (simp add: new_subcomp_def utcoffset_before_def)
  qed
  with ex p show ?thesis by blast
qed

lemma aware_window_not_empty:
  assumes "xs \<noteq> []" and "sorted xs" and "fd \<le> ld"
    and "select_window (Aware fd) (Aware ld) (map Aware xs) = Inr (first_num, last_num)"
  shows "first_num \<le> last_num"
  using instant_window_nonempty[OF assms(1,2,3), of first_num last_num]
    assms(4) select_window_aware[OF assms(1), of fd ld]
  by simp

section \<open>The timezone component builder\<close>

subsection \<open>Static zones\<close>

text \<open>
  C1. For a static zone the claim asks for one STANDARD sub-component whose TZOFFSETFROM
  and TZOFFSETTO are the zone's fixed UTC offset. For the zone one hour ahead of UTC,
  \<open>create_timezone\<close> returns the offset zero in both places, where lines 60 and 61
  overwrite the offset read on line 59; \<open>_create_timezone_static\<close> returns the hour.
\<close>

theorem static_zone_offset_is_zero:
  "utc_transition_times fixed_plus_one = None \<and>
   utcoffset fixed_plus_one = Timedelta 3600 \<and>
   create_timezone (0, 0) fixed_plus_one None None = Inr tree_fixed_zero \<and>
   create_timezone_static fixed_plus_one = Inr tree_fixed_hour \<and>
   map TZOFFSETTO (subcomponents tree_fixed_zero) = [Timedelta 0] \<and>
   map TZOFFSETFROM (subcomponents tree_fixed_zero) = [Timedelta 0]"
  by (simp add: create_timezone_def create_timezone_static_def fixed_plus_one_def
        tree_fixed_zero_def tree_fixed_hour_def Let_def)

subsection \<open>The window of transition indices\<close>




text \<open>
  C8. The claim asks, for a non-empty history in chronological order and a window with
  \<open>first_date \<le> last_date\<close>, for a tree with at least one sub-component. For the history
  of \<open>paris\<close>, held as pytz holds it, and the window that collapses onto the transition at
  instant 100, the scan raises TypeError and no tree is returned.
\<close>

theorem collapsed_window_raises:
  "utc_transition_times paris = Some [Naive 0, Naive 100, Naive 200, Naive 300, Naive 400] \<and>
   sorted [0, 100, 200, 300, 400 :: int] \<and> (100 :: int) \<le> 100 \<and>
   select_window (Aware 100) (Aware 100) [Naive 0, Naive 100, Naive 200, Naive 300, Naive 400] =
     Inl TypeError \<and>
   create_timezone (0, 0) paris (Some 100) (Some 100) = Inl TypeError"
  by (simp add: create_timezone_paris select_window_naive paris_tts)

subsection \<open>Grouping by abbreviated name\<close>



subsection \<open>Offsets\<close>






section \<open>The UTC normalizer\<close>

text \<open>
  C9, as amended. \<open>to_naive_utc\<close> returns a value without a \<open>tzinfo\<close> attribute, or
  with \<open>tzinfo\<close> \<open>None\<close>, unchanged and raises nothing; on a value with a zone it raises
  nothing when the UTC equivalent lies between \<open>datetime.min\<close> and \<open>datetime.max\<close>, and
  OverflowError otherwise.
\<close>

theorem to_naive_utc_total_in_range:
  "to_naive_utc (NoTzinfoAttr d) = Inr (NoTzinfoAttr d) \<and>
   to_naive_utc (Datetime wall None) = Inr (Datetime wall None) \<and>
   (datetime_min \<le> wall - off \<and> wall - off \<le> datetime_max \<longrightarrow>
      to_naive_utc (Datetime wall (Some off)) = Inr (Datetime (wall - off) None)) \<and>
   (\<not> (datetime_min \<le> wall - off \<and> wall - off \<le> datetime_max) \<longrightarrow>
      to_naive_utc (Datetime wall (Some off)) = Inl OverflowError)"
  by (simp add: astimezone_utc_def Let_def)

theorem to_naive_utc_total_in_range_witness:
  "datetime_min \<le> 86400 - 3600 \<and> 86400 - 3600 \<le> datetime_max \<and>
   to_naive_utc (NoTzinfoAttr 719163) = Inr (NoTzinfoAttr 719163) \<and>
   to_naive_utc (Datetime 86400 None) = Inr (Datetime 86400 None) \<and>
   to_naive_utc (Datetime 86400 (Some 3600)) = Inr (Datetime (86400 - 3600) None)"
proof -
  have r: "datetime_min \<le> 86400 - 3600 \<and> 86400 - 3600 \<le> datetime_max"
    by (simp add: datetime_min_def datetime_max_def)
  from to_naive_utc_total_in_range[of 719163 86400 3600] r show ?thesis by blast
qed

text \<open>
  The claim as first stated fails at \<open>datetime.min\<close> in a zone one hour ahead of UTC.
\<close>

theorem to_naive_utc_overflow_counterexample:
  "to_naive_utc (Datetime datetime_min (Some 3600)) = Inl OverflowError"
  by (simp add: astimezone_utc_def datetime_min_def datetime_max_def)

text \<open>
  C10. \<open>to_naive_utc\<close> is idempotent: applying it to its own result gives the result of
  applying it once; where the first call raises, so does the composition, with the same
  error.
\<close>

theorem to_naive_utc_idempotent:
  "and_then (to_naive_utc v) to_naive_utc = to_naive_utc v"
proof (cases v)
  case (NoTzinfoAttr d)
  then show ?thesis by (simp add: and_then_def)
next
  case (Datetime wall tzi)
  show ?thesis
  proof (cases tzi)
    case None
    with Datetime show ?thesis by (simp add: and_then_def)
  next
    case (Some off)
    with Datetime show ?thesis
      by (cases "astimezone_utc wall off") (simp_all add: and_then_def)
  qed
qed

end
